theory Spec2Isabelle
  imports
    Main
    "HOL-Library.Char_ord"
    "HOL-Library.List_Lexorder"
    "HOL-Library.Option_ord"
    "HOL-Library.Multiset"
begin

section \<open>The consent store of \<open>streamlit_app.py\<close>\<close>

text \<open>
  The data layer of the application is six functions over one SQLite file with two
  tables. The model keeps a table as the list of its rows in insertion (rowid) order
  and passes the database through every function.

  A Python \<open>str\<close> and a \<open>TEXT\<close> column are modelled by \<open>string\<close>, read as the UTF-8
  bytes of the text: \<open>body.encode("utf-8")\<close> is then the identity, SQLite's \<open>=\<close> on
  \<open>TEXT\<close> is equality of byte lists and its \<open>ORDER BY\<close> on \<open>TEXT\<close> (collation
  \<open>BINARY\<close>, a \<open>memcmp\<close>) is the lexicographic order of byte lists. A nullable column
  and a Python value that may be \<open>None\<close> are \<open>string option\<close>.

  What the functions take from their environment is an argument of the model:
  the clock (\<open>datetime.now(timezone.utc).isoformat()\<close>, the argument \<open>now\<close>), the
  random identifier (\<open>str(uuid.uuid4())\<close>, the argument \<open>uuid4\<close>) and the library
  functions \<open>hashlib.sha256(_).hexdigest()\<close>, \<open>json.dumps(_, ensure_ascii=False)\<close> and
  SQLite's \<open>datetime(_)\<close>.
\<close>

subsection \<open>Tables\<close>

text \<open>
  \<open>consent_texts(id, version, language, title, body, body_hash, created_at)\<close>; a row of
  it is also what \<open>get_latest_consent_text\<close> returns and \<open>save_consent\<close> unpacks as
  \<open>ct_id, ct_version, _, _, _, ct_hash, _\<close>.
\<close>

record consent_text =
  ct_id :: int
  ct_version :: string
  ct_language :: string
  ct_title :: string
  ct_body :: string
  ct_body_hash :: string
  ct_created_at :: string

text \<open>
  \<open>consents(id, created_at, subject_email, subject_name, purposes_json, consent_text_id,
  consent_text_version, consent_text_hash, is_granted, revoked_at, revocation_note)\<close>.
  The column \<open>id\<close> is the field \<open>cid\<close>; \<open>is_granted\<close> is the \<open>INTEGER\<close> the code
  writes (1 on insert, 0 on revocation).
\<close>

record consent =
  cid :: string
  created_at :: string
  subject_email :: "string option"
  subject_name :: "string option"
  purposes_json :: string
  consent_text_id :: int
  consent_text_version :: string
  consent_text_hash :: string
  is_granted :: int
  revoked_at :: "string option"
  revocation_note :: "string option"

record database =
  consent_texts :: "consent_text list"
  consents :: "consent list"

text \<open>
  The two constraints an \<open>INSERT INTO consents\<close> can violate, both raised by the
  driver as \<open>sqlite3.IntegrityError\<close>: the primary key on \<open>id\<close>, and the foreign key
  on \<open>consent_text_id\<close>, which \<open>db()\<close> switches on with \<open>PRAGMA foreign_keys = ON\<close>.
\<close>

datatype error = UniqueConstraintFailed | ForeignKeyConstraintFailed

text \<open>\<open>init_db\<close> on a new file: both tables exist and are empty.\<close>

definition init_db :: database where
  "init_db = \<lparr>consent_texts = [], consents = []\<rparr>"

subsection \<open>SQL helpers\<close>

text \<open>
  \<open>id INTEGER PRIMARY KEY\<close> left out of an \<open>INSERT\<close>: SQLite assigns one more than the
  largest rowid in the table, and 1 to the first row. (At the largest rowid
  \<open>2^63 - 1\<close> SQLite draws random rowids instead; no table of this program, whose rows
  are numbered from 1 and never deleted, gets there.)
\<close>

fun next_rowid :: "int list \<Rightarrow> int" where
  "next_rowid [] = 1"
| "next_rowid (i # ids) = fold max ids i + 1"

text \<open>
  \<open>ORDER BY key DESC\<close>. SQL leaves the order of rows with equal keys open; SQLite's
  sorter keeps them in scan order, which is what the insertion below does: a row goes
  in front of the first row whose key is not larger than its own.
\<close>

fun insert_desc :: "('a \<Rightarrow> 'k::linorder) \<Rightarrow> 'a \<Rightarrow> 'a list \<Rightarrow> 'a list" where
  "insert_desc key x [] = [x]"
| "insert_desc key x (y # ys) =
     (if key y \<le> key x then x # y # ys else y # insert_desc key x ys)"

fun order_by_desc :: "('a \<Rightarrow> 'k::linorder) \<Rightarrow> 'a list \<Rightarrow> 'a list" where
  "order_by_desc key [] = []"
| "order_by_desc key (x # xs) = insert_desc key x (order_by_desc key xs)"

text \<open>Python's \<open>x or None\<close> and the truth value of \<open>x\<close>, for \<open>x\<close> a string or \<open>None\<close>.\<close>

fun truthy :: "string option \<Rightarrow> bool" where
  "truthy None = False"
| "truthy (Some s) = (s \<noteq> [])"

definition or_None :: "string option \<Rightarrow> string option" where
  "or_None x = (if truthy x then x else None)"

subsection \<open>Consent texts\<close>

text \<open>
  \<open>upsert_consent_text(version, language, title, body)\<close>: hashes the body, inserts one
  row and returns the hash. All four arguments are strings, so no \<open>NOT NULL\<close>
  constraint can fail.
\<close>

definition upsert_consent_text ::
  "(string \<Rightarrow> string) \<Rightarrow> string \<Rightarrow> string \<Rightarrow> string \<Rightarrow> string \<Rightarrow> string \<Rightarrow>
   database \<Rightarrow> string \<times> database" where
  "upsert_consent_text sha256_hexdigest now version language title body db =
     (let h = sha256_hexdigest body;
          row = \<lparr>ct_id = next_rowid (map ct_id (consent_texts db)),
                 ct_version = version, ct_language = language, ct_title = title,
                 ct_body = body, ct_body_hash = h, ct_created_at = now\<rparr>
      in (h, db\<lparr>consent_texts := consent_texts db @ [row]\<rparr>))"

text \<open>
  \<open>get_latest_consent_text(language)\<close>:
  \<open>WHERE language=? ORDER BY created_at DESC LIMIT 1\<close>, then \<open>fetchone()\<close>, which is
  \<open>None\<close> when the query has no row.
\<close>

definition get_latest_consent_text :: "string \<Rightarrow> database \<Rightarrow> consent_text option" where
  "get_latest_consent_text language db =
     (case order_by_desc ct_created_at
             (filter (\<lambda>r. ct_language r = language) (consent_texts db)) of
        [] \<Rightarrow> None
      | row # _ \<Rightarrow> Some row)"

definition list_consent_texts :: "database \<Rightarrow> consent_text list" where
  "list_consent_texts db = order_by_desc ct_created_at (consent_texts db)"

subsection \<open>Consents\<close>

text \<open>
  \<open>save_consent(subject_email, subject_name, purposes, ct_row)\<close>. The \<open>INSERT\<close> fails
  on an \<open>id\<close> that is already in the table and, the primary key passed, on a
  \<open>consent_text_id\<close> that is no \<open>id\<close> of \<open>consent_texts\<close>; the exception leaves
  \<open>db()\<close> before \<open>con.commit()\<close>, so nothing is stored.
\<close>

definition save_consent ::
  "('p \<Rightarrow> string) \<Rightarrow> string \<Rightarrow> string \<Rightarrow> string option \<Rightarrow> string option \<Rightarrow> 'p \<Rightarrow>
   consent_text \<Rightarrow> database \<Rightarrow> error + string \<times> database" where
  "save_consent json_dumps uuid4 now email name purposes ct_row db =
     (let row = \<lparr>cid = uuid4, created_at = now,
                 subject_email = or_None email, subject_name = or_None name,
                 purposes_json = json_dumps purposes,
                 consent_text_id = ct_id ct_row,
                 consent_text_version = ct_version ct_row,
                 consent_text_hash = ct_body_hash ct_row,
                 is_granted = 1, revoked_at = None, revocation_note = None\<rparr>
      in if uuid4 \<in> set (map cid (consents db)) then Inl UniqueConstraintFailed
         else if ct_id ct_row \<notin> set (map ct_id (consent_texts db))
           then Inl ForeignKeyConstraintFailed
         else Inr (uuid4, db\<lparr>consents := consents db @ [row]\<rparr>))"

text \<open>
  The eight columns \<open>list_consents\<close> selects: \<open>id, created_at, subject_email,
  subject_name, purposes_json, consent_text_version, is_granted, revoked_at\<close>.
\<close>

type_synonym consent_row =
  "string \<times> string \<times> string option \<times> string option \<times> string \<times> string \<times> int \<times> string option"

definition select_columns :: "consent \<Rightarrow> consent_row" where
  "select_columns r =
     (cid r, created_at r, subject_email r, subject_name r, purposes_json r,
      consent_text_version r, is_granted r, revoked_at r)"

definition row_id :: "consent_row \<Rightarrow> string" where
  "row_id row = fst row"

definition row_created_at :: "consent_row \<Rightarrow> string" where
  "row_created_at row = fst (snd row)"

definition row_subject_email :: "consent_row \<Rightarrow> string option" where
  "row_subject_email row = fst (snd (snd row))"

definition row_version :: "consent_row \<Rightarrow> string" where
  "row_version row = fst (snd (snd (snd (snd (snd row)))))"

text \<open>
  \<open>list_consents(email_filter)\<close>. The condition \<open>AND subject_email = ?\<close> is added
  \<open>if email_filter:\<close>, that is for a filter that is neither \<open>None\<close> nor empty; a
  \<open>NULL\<close> \<open>subject_email\<close> equals no parameter. The rows are ordered by
  \<open>datetime(created_at) DESC\<close>; \<open>datetime\<close> returns \<open>NULL\<close> for a string it cannot
  read, and \<open>NULL\<close> sorts below every string.
\<close>

definition list_consents ::
  "(string \<Rightarrow> string option) \<Rightarrow> string option \<Rightarrow> database \<Rightarrow> consent_row list" where
  "list_consents datetime email_filter db =
     (let rows = (if truthy email_filter
                  then filter (\<lambda>r. subject_email r = email_filter) (consents db)
                  else consents db)
      in map select_columns (order_by_desc (\<lambda>r. datetime (created_at r)) rows))"

text \<open>
  \<open>revoke_consent(consent_id, note)\<close>: one \<open>UPDATE\<close> of the rows
  \<open>WHERE id = ? AND revoked_at IS NULL\<close>.
\<close>

definition revoke_consent :: "string \<Rightarrow> string \<Rightarrow> string option \<Rightarrow> database \<Rightarrow> database" where
  "revoke_consent now consent_id note db =
     db\<lparr>consents :=
          map (\<lambda>r. if cid r = consent_id \<and> revoked_at r = None
                    then r\<lparr>is_granted := 0, revoked_at := Some now, revocation_note := note\<rparr>
                    else r)
              (consents db)\<rparr>"

subsection \<open>Sequences of calls\<close>

text \<open>
  One call of the data layer, with what it reads from the clock and the random
  generator, and its effect on the database. A read changes nothing; a
  \<open>save_consent\<close> that raises leaves the database as it was.
\<close>

datatype 'p operation =
    Upsert_consent_text string string string string string
  | Get_latest_consent_text string
  | List_consent_texts
  | Save_consent string string "string option" "string option" 'p consent_text
  | List_consents "string option"
  | Revoke_consent string string "string option"

fun step :: "(string \<Rightarrow> string) \<Rightarrow> ('p \<Rightarrow> string) \<Rightarrow> 'p operation \<Rightarrow> database \<Rightarrow> database" where
  "step sha dumps (Upsert_consent_text now version language title body) db =
     snd (upsert_consent_text sha now version language title body db)"
| "step sha dumps (Get_latest_consent_text language) db = db"
| "step sha dumps List_consent_texts db = db"
| "step sha dumps (Save_consent uuid4 now email name purposes ct_row) db =
     (case save_consent dumps uuid4 now email name purposes ct_row db of
        Inl e \<Rightarrow> db
      | Inr (i, db') \<Rightarrow> db')"
| "step sha dumps (List_consents email_filter) db = db"
| "step sha dumps (Revoke_consent now consent_id note) db =
     revoke_consent now consent_id note db"

definition run ::
  "(string \<Rightarrow> string) \<Rightarrow> ('p \<Rightarrow> string) \<Rightarrow> 'p operation list \<Rightarrow> database \<Rightarrow> database" where
  "run sha dumps ops db = fold (step sha dumps) ops db"

fun is_upsert :: "'p operation \<Rightarrow> bool" where
  "is_upsert (Upsert_consent_text now version language title body) = True"
| "is_upsert _ = False"

text \<open>
  What a consent record freezes of the consent text it was given for, with the
  record's identifier.
\<close>

definition snapshot :: "consent \<Rightarrow> string \<times> int \<times> string \<times> string" where
  "snapshot r = (cid r, consent_text_id r, consent_text_version r, consent_text_hash r)"

subsection \<open>Example data\<close>

text \<open>
  Concrete arguments at which the theorems below are instantiated. The three
  functions stand in for the library functions, which the theorems take as
  arbitrary: none of them computes a digest, JSON or a calendar date. On the
  timestamps used here \<open>example_datetime\<close> agrees with SQLite's \<open>datetime\<close>, which
  drops the \<open>T\<close>, the fraction of the second and the zero offset.
\<close>

definition example_digest :: "string \<Rightarrow> string" where
  "example_digest body = ''sha256:'' @ body"

definition example_dumps :: "(string \<times> bool) list \<Rightarrow> string" where
  "example_dumps purposes =
     concat (map (\<lambda>(k, v). k @ (if v then '':true;'' else '':false;'')) purposes)"

definition example_datetime :: "string \<Rightarrow> string option" where
  "example_datetime s =
     (if length s < 19 then None else Some (take 10 s @ '' '' @ take 8 (drop 11 s)))"

definition text_v1 :: consent_text where
  "text_v1 = \<lparr>ct_id = 1, ct_version = ''v1.0'', ct_language = ''de'', ct_title = ''Einwilligung'',
     ct_body = ''Hello'', ct_body_hash = ''sha256:Hello'',
     ct_created_at = ''2024-01-01T09:00:00.250000+00:00''\<rparr>"

definition text_v2 :: consent_text where
  "text_v2 = \<lparr>ct_id = 2, ct_version = ''v1.1'', ct_language = ''de'', ct_title = ''Einwilligung'',
     ct_body = ''Hello'', ct_body_hash = ''sha256:Hello'',
     ct_created_at = ''2024-02-01T09:00:00.250000+00:00''\<rparr>"

definition consent_a :: consent where
  "consent_a = \<lparr>cid = ''a1'', created_at = ''2024-03-01T12:00:00.100000+00:00'',
     subject_email = None, subject_name = None, purposes_json = ''newsletter:true;'',
     consent_text_id = 1, consent_text_version = ''v1.0'', consent_text_hash = ''sha256:Hello'',
     is_granted = 1, revoked_at = None, revocation_note = None\<rparr>"

definition consent_b :: consent where
  "consent_b = \<lparr>cid = ''b2'', created_at = ''2024-03-01T12:00:00.900000+00:00'',
     subject_email = Some ''a@example.com'', subject_name = None,
     purposes_json = ''newsletter:true;'',
     consent_text_id = 1, consent_text_version = ''v1.0'', consent_text_hash = ''sha256:Hello'',
     is_granted = 1, revoked_at = None, revocation_note = None\<rparr>"

definition consent_a_revoked :: consent where
  "consent_a_revoked = consent_a\<lparr>is_granted := 0,
     revoked_at := Some ''2024-03-02T08:00:00.500000+00:00'',
     revocation_note := Some ''Widerruf''\<rparr>"

definition db_texts :: database where
  "db_texts = \<lparr>consent_texts = [text_v1, text_v2], consents = []\<rparr>"

definition db_one_text :: database where
  "db_one_text = \<lparr>consent_texts = [text_v1], consents = []\<rparr>"

definition db_a :: database where
  "db_a = \<lparr>consent_texts = [text_v1], consents = [consent_a]\<rparr>"

definition db_ab :: database where
  "db_ab = \<lparr>consent_texts = [text_v1], consents = [consent_a, consent_b]\<rparr>"

definition db_a_revoked :: database where
  "db_a_revoked = \<lparr>consent_texts = [text_v1], consents = [consent_a_revoked]\<rparr>"

text \<open>
  A history from the empty database: the text is stored, two consents are given under
  it and the first is revoked.
\<close>

definition history :: "(string \<times> bool) list operation list" where
  "history =
     [Upsert_consent_text ''2024-01-01T09:00:00.250000+00:00'' ''v1.0'' ''de''
        ''Einwilligung'' ''Hello'',
      Save_consent ''a1'' ''2024-03-01T12:00:00.100000+00:00'' None None
        [(''newsletter'', True)] text_v1,
      Save_consent ''b2'' ''2024-03-01T12:00:00.900000+00:00'' (Some ''a@example.com'') (Some [])
        [(''newsletter'', True)] text_v1,
      List_consents None,
      Revoke_consent ''2024-03-02T08:00:00.500000+00:00'' ''a1'' (Some ''Widerruf'')]"

text \<open>
  Calls after a revocation: a second revocation of the same record, a new consent, a
  consent under the identifier of the revoked one (refused), a listing.
\<close>

definition later_calls :: "(string \<times> bool) list operation list" where
  "later_calls =
     [Revoke_consent ''2024-04-01T10:00:00.000001+00:00'' ''a1'' (Some ''again''),
      Save_consent ''b2'' ''2024-04-01T11:00:00.000001+00:00'' None None
        [(''newsletter'', False)] text_v1,
      Save_consent ''a1'' ''2024-04-01T12:00:00.000001+00:00'' None None
        [(''newsletter'', True)] text_v1,
      List_consents (Some ''a@example.com'')]"

text \<open>A later edition of the consent text, stored after the consents were given.\<close>

definition text_update :: "(string \<times> bool) list operation list" where
  "text_update =
     [Upsert_consent_text ''2024-05-01T09:00:00.250000+00:00'' ''v2.0'' ''de''
        ''Einwilligung'' ''Hello again'']"

subsection \<open>Agreement of the two revocation columns\<close>

definition consistent :: "consent \<Rightarrow> bool" where
  "consistent r = (if revoked_at r = None then is_granted r = 1 else is_granted r = 0)"

section \<open>Properties\<close>

subsection \<open>Ordering\<close>

lemma set_insert_desc: "set (insert_desc key x xs) = insert x (set xs)"
  by (induction xs) auto

lemma mset_insert_desc: "mset (insert_desc key x xs) = add_mset x (mset xs)"
  by (induction xs) auto

lemma mset_order_by_desc: "mset (order_by_desc key xs) = mset xs"
  by (induction xs) (simp_all add: mset_insert_desc)

lemma set_order_by_desc: "set (order_by_desc key xs) = set xs"
  by (induction xs) (simp_all add: set_insert_desc)

lemma sorted_insert_desc:
  "sorted_wrt (\<lambda>a b. key b \<le> key a) xs \<Longrightarrow>
   sorted_wrt (\<lambda>a b. key b \<le> key a) (insert_desc key x xs)"
proof (induction xs)
  case Nil
  then show ?case by simp
next
  case (Cons y ys)
  show ?case
  proof (cases "key y \<le> key x")
    case True
    with Cons.prems show ?thesis by (auto intro: order_trans)
  next
    case False
    then have "key x \<le> key y" by simp
    with False Cons show ?thesis by (auto simp: set_insert_desc)
  qed
qed

lemma sorted_order_by_desc: "sorted_wrt (\<lambda>a b. key b \<le> key a) (order_by_desc key xs)"
  by (induction xs) (simp_all add: sorted_insert_desc)

subsection \<open>Row identifiers\<close>

lemma next_rowid_greater: "i \<in> set ids \<Longrightarrow> i < next_rowid ids"
proof (cases ids)
  case Nil
  assume "i \<in> set ids"
  with Nil show ?thesis by simp
next
  case (Cons j js)
  assume "i \<in> set ids"
  then have "i \<le> Max (set (j # js))" using Cons by (intro Max_ge) simp_all
  also have "Max (set (j # js)) = fold max js j" by (rule Max.set_eq_fold)
  finally show ?thesis using Cons by simp
qed

lemma next_rowid_fresh: "next_rowid ids \<notin> set ids"
  using next_rowid_greater by blast

subsection \<open>Storing a consent text\<close>

text \<open>
  C4. \<open>upsert_consent_text\<close> returns the digest of the body and stores it as
  \<open>body_hash\<close> of the row it inserts. Saving the same body again under another version
  returns the same digest and inserts a second row: the table is the old table followed
  by the two new rows, whose identifiers differ from each other and from every
  identifier the table had, and both of which carry the digest. The table of consents
  is not touched.
\<close>

theorem upsert_consent_text_hash:
  assumes "upsert_consent_text sha now version language title body db = (h, db1)"
    and "upsert_consent_text sha now' version' language' title' body db1 = (h', db2)"
  shows "h = sha body \<and> h' = h \<and> consents db1 = consents db \<and> consents db2 = consents db \<and>
    (\<exists>row row'.
       consent_texts db1 = consent_texts db @ [row] \<and>
       consent_texts db2 = consent_texts db @ [row, row'] \<and>
       ct_version row = version \<and> ct_body row = body \<and> ct_body_hash row = sha body \<and>
       ct_version row' = version' \<and> ct_body row' = body \<and> ct_body_hash row' = sha body \<and>
       ct_id row \<notin> set (map ct_id (consent_texts db)) \<and>
       ct_id row' \<notin> set (map ct_id (consent_texts db)) \<and>
       ct_id row' \<noteq> ct_id row)"
proof -
  let ?ids = "map ct_id (consent_texts db)"
  let ?row = "\<lparr>ct_id = next_rowid ?ids, ct_version = version, ct_language = language,
    ct_title = title, ct_body = body, ct_body_hash = sha body, ct_created_at = now\<rparr>"
  let ?row' = "\<lparr>ct_id = next_rowid (?ids @ [next_rowid ?ids]), ct_version = version',
    ct_language = language', ct_title = title', ct_body = body, ct_body_hash = sha body,
    ct_created_at = now'\<rparr>"
  from assms(1) have h: "h = sha body"
    and db1: "db1 = db\<lparr>consent_texts := consent_texts db @ [?row]\<rparr>"
    by (auto simp add: upsert_consent_text_def Let_def)
  from assms(2) db1 have h': "h' = sha body"
    and db2: "db2 = db\<lparr>consent_texts := consent_texts db @ [?row, ?row']\<rparr>"
    by (auto simp add: upsert_consent_text_def Let_def)
  have 1: "next_rowid ?ids \<notin> set ?ids" by (rule next_rowid_fresh)
  have 2: "next_rowid (?ids @ [next_rowid ?ids]) \<notin> set (?ids @ [next_rowid ?ids])"
    by (rule next_rowid_fresh)
  from 2 have 3: "next_rowid (?ids @ [next_rowid ?ids]) \<notin> set ?ids"
    and 4: "next_rowid (?ids @ [next_rowid ?ids]) \<noteq> next_rowid ?ids" by auto
  have "consent_texts db1 = consent_texts db @ [?row] \<and>
       consent_texts db2 = consent_texts db @ [?row, ?row'] \<and>
       ct_version ?row = version \<and> ct_body ?row = body \<and> ct_body_hash ?row = sha body \<and>
       ct_version ?row' = version' \<and> ct_body ?row' = body \<and> ct_body_hash ?row' = sha body \<and>
       ct_id ?row \<notin> set ?ids \<and> ct_id ?row' \<notin> set ?ids \<and> ct_id ?row' \<noteq> ct_id ?row"
    using 1 3 4 by (simp add: db1 db2)
  then have "\<exists>row row'.
       consent_texts db1 = consent_texts db @ [row] \<and>
       consent_texts db2 = consent_texts db @ [row, row'] \<and>
       ct_version row = version \<and> ct_body row = body \<and> ct_body_hash row = sha body \<and>
       ct_version row' = version' \<and> ct_body row' = body \<and> ct_body_hash row' = sha body \<and>
       ct_id row \<notin> set ?ids \<and> ct_id row' \<notin> set ?ids \<and> ct_id row' \<noteq> ct_id row"
    by blast
  with h h' db1 db2 show ?thesis by simp
qed

text \<open>
  The end-to-end example of the specification: version \<open>v1.0\<close> with body \<open>Hello\<close> on
  the empty database, then the same body as \<open>v1.1\<close>.
\<close>

theorem upsert_consent_text_hash_witness:
  "upsert_consent_text example_digest ''2024-01-01T09:00:00.250000+00:00''
      ''v1.0'' ''de'' ''Einwilligung'' ''Hello'' init_db = (''sha256:Hello'', db_one_text) \<and>
   upsert_consent_text example_digest ''2024-02-01T09:00:00.250000+00:00''
      ''v1.1'' ''de'' ''Einwilligung'' ''Hello'' db_one_text = (''sha256:Hello'', db_texts) \<and>
   ''sha256:Hello'' = example_digest ''Hello'' \<and>
   consent_texts db_texts = consent_texts init_db @ [text_v1, text_v2] \<and>
   ct_id text_v2 \<noteq> ct_id text_v1"
proof -
  have 1: "upsert_consent_text example_digest ''2024-01-01T09:00:00.250000+00:00''
      ''v1.0'' ''de'' ''Einwilligung'' ''Hello'' init_db = (''sha256:Hello'', db_one_text)"
    by (simp add: upsert_consent_text_def Let_def init_db_def db_one_text_def text_v1_def
        example_digest_def)
  have 2: "upsert_consent_text example_digest ''2024-02-01T09:00:00.250000+00:00''
      ''v1.1'' ''de'' ''Einwilligung'' ''Hello'' db_one_text = (''sha256:Hello'', db_texts)"
    by (simp add: upsert_consent_text_def Let_def db_texts_def db_one_text_def text_v1_def
        text_v2_def example_digest_def)
  from upsert_consent_text_hash [OF 1 2]
  have 3: "''sha256:Hello'' = example_digest ''Hello''"
    and "\<exists>row row'. consent_texts db_one_text = consent_texts init_db @ [row] \<and>
       consent_texts db_texts = consent_texts init_db @ [row, row'] \<and>
       ct_id row' \<noteq> ct_id row"
    by blast+
  then obtain row row' where "consent_texts db_one_text = consent_texts init_db @ [row]"
    and 4: "consent_texts db_texts = consent_texts init_db @ [row, row']"
    and 5: "ct_id row' \<noteq> ct_id row" by blast
  from 4 have "row = text_v1" "row' = text_v2"
    by (simp_all add: db_texts_def init_db_def)
  with 1 2 3 4 5 show ?thesis by simp
qed

subsection \<open>The latest consent text\<close>

lemma order_by_desc_hd_max:
  assumes "order_by_desc key xs = y # ys" and "x \<in> set xs"
  shows "key x \<le> key y"
proof -
  have "sorted_wrt (\<lambda>a b. key b \<le> key a) (y # ys)"
    using sorted_order_by_desc [of key xs] assms(1) by simp
  moreover have "x \<in> set (y # ys)"
    using set_order_by_desc [of key xs] assms by simp
  ultimately show ?thesis by auto
qed

text \<open>
  C5. \<open>get_latest_consent_text\<close> returns \<open>None\<close> exactly when the table has no row of
  the language asked for. A row it returns is a row of the table, has that language,
  and no row of that language has a larger \<open>created_at\<close> (in the order of the column,
  which is the order of the stored strings).
\<close>

theorem get_latest_consent_text_max:
  "(get_latest_consent_text language db = None) =
     (\<forall>r \<in> set (consent_texts db). ct_language r \<noteq> language) \<and>
   (\<forall>row. get_latest_consent_text language db = Some row \<longrightarrow>
     row \<in> set (consent_texts db) \<and> ct_language row = language \<and>
     (\<forall>r \<in> set (consent_texts db).
        ct_language r = language \<longrightarrow> ct_created_at r \<le> ct_created_at row))"
proof -
  let ?rows = "filter (\<lambda>r. ct_language r = language) (consent_texts db)"
  let ?sorted = "order_by_desc ct_created_at ?rows"
  have none: "(get_latest_consent_text language db = None) = (?sorted = [])"
    by (simp add: get_latest_consent_text_def split: list.splits)
  have "(?sorted = []) = (set ?sorted = {})" by simp
  also have "\<dots> = (set ?rows = {})" by (simp only: set_order_by_desc)
  also have "\<dots> = (\<forall>r \<in> set (consent_texts db). ct_language r \<noteq> language)" by auto
  finally have a: "(get_latest_consent_text language db = None) =
     (\<forall>r \<in> set (consent_texts db). ct_language r \<noteq> language)" using none by simp
  have b: "row \<in> set (consent_texts db) \<and> ct_language row = language \<and>
     (\<forall>r \<in> set (consent_texts db).
        ct_language r = language \<longrightarrow> ct_created_at r \<le> ct_created_at row)"
    if "get_latest_consent_text language db = Some row" for row
  proof -
    from that obtain ys where s: "?sorted = row # ys"
      by (auto simp add: get_latest_consent_text_def split: list.splits)
    then have "row \<in> set ?sorted" by simp
    then have "row \<in> set ?rows" by (simp only: set_order_by_desc)
    moreover have "ct_created_at r \<le> ct_created_at row" if "r \<in> set ?rows" for r
      using order_by_desc_hd_max [OF s that] .
    ultimately show ?thesis by auto
  qed
  from a b show ?thesis by blast
qed

theorem get_latest_consent_text_max_witness:
  "get_latest_consent_text ''de'' db_texts = Some text_v2 \<and>
   text_v1 \<in> set (consent_texts db_texts) \<and> ct_language text_v1 = ''de'' \<and>
   ct_created_at text_v1 \<le> ct_created_at text_v2 \<and>
   get_latest_consent_text ''en'' db_texts = None"
proof -
  have 1: "get_latest_consent_text ''de'' db_texts = Some text_v2"
    by (simp add: get_latest_consent_text_def db_texts_def text_v1_def text_v2_def)
  have 2: "text_v1 \<in> set (consent_texts db_texts)" by (simp add: db_texts_def)
  have 3: "ct_language text_v1 = ''de''" by (simp add: text_v1_def)
  have 4: "\<forall>r \<in> set (consent_texts db_texts). ct_language r \<noteq> ''en''"
    by (simp add: db_texts_def text_v1_def text_v2_def)
  from get_latest_consent_text_max [of "''de''" db_texts] 1 2 3
  have 5: "ct_created_at text_v1 \<le> ct_created_at text_v2" by blast
  from get_latest_consent_text_max [of "''en''" db_texts] 4
  have 6: "get_latest_consent_text ''en'' db_texts = None" by blast
  from 1 2 3 5 6 show ?thesis by simp
qed

subsection \<open>Listing consents\<close>

text \<open>
  C10. With the empty string as filter \<open>list_consents\<close> returns what it returns with no
  filter, which is every record of the table (each once, as the selected columns).
\<close>

theorem list_consents_empty_filter:
  "list_consents datetime (Some []) db = list_consents datetime None db \<and>
   mset (list_consents datetime (Some []) db) = mset (map select_columns (consents db))"
  by (simp add: list_consents_def mset_order_by_desc)

theorem list_consents_empty_filter_witness:
  "list_consents example_datetime (Some []) db_ab = list_consents example_datetime None db_ab \<and>
   mset (list_consents example_datetime (Some []) db_ab) =
     {#select_columns consent_a, select_columns consent_b#}"
proof -
  have 1: "mset (map select_columns (consents db_ab)) =
     {#select_columns consent_a, select_columns consent_b#}"
    by (simp add: db_ab_def)
  from list_consents_empty_filter [of example_datetime db_ab]
  have 2: "list_consents example_datetime (Some []) db_ab =
      list_consents example_datetime None db_ab"
    and 3: "mset (list_consents example_datetime (Some []) db_ab) =
      mset (map select_columns (consents db_ab))"
    by blast+
  from 3 have "mset (list_consents example_datetime (Some []) db_ab) =
     {#select_columns consent_a, select_columns consent_b#}"
    by (simp only: 1)
  with 2 show ?thesis by blast
qed

subsection \<open>What a call leaves alone\<close>

lemma consents_upsert [simp]:
  "consents (snd (upsert_consent_text sha now version language title body db)) = consents db"
  by (simp add: upsert_consent_text_def Let_def)

lemma consents_save:
  "save_consent dumps u now email name purposes ct_row db = Inr (i, db') \<Longrightarrow>
   i = u \<and> u \<notin> cid ` set (consents db) \<and>
   ct_id ct_row \<in> ct_id ` set (consent_texts db) \<and>
   consent_texts db' = consent_texts db \<and>
   consents db' = consents db @
     [\<lparr>cid = u, created_at = now, subject_email = or_None email,
       subject_name = or_None name, purposes_json = dumps purposes,
       consent_text_id = ct_id ct_row, consent_text_version = ct_version ct_row,
       consent_text_hash = ct_body_hash ct_row,
       is_granted = 1, revoked_at = None, revocation_note = None\<rparr>]"
  by (auto simp add: save_consent_def Let_def split: if_splits)


subsection \<open>Revoking a consent\<close>

text \<open>
  C2. For the record at position \<open>k\<close> of the table, with the identifier passed to
  \<open>revoke_consent\<close>: if its \<open>revoked_at\<close> is \<open>NULL\<close>, the call sets \<open>is_granted\<close> to 0,
  \<open>revoked_at\<close> to the time of the call and \<open>revocation_note\<close> to the note, and changes
  no other column; if its \<open>revoked_at\<close> is set, the record stays as it is. The call
  neither adds nor removes a record and leaves the consent texts alone.
\<close>

theorem revoke_consent_active:
  assumes "k < length (consents db)" and "cid (consents db ! k) = consent_id"
  shows "length (consents (revoke_consent now consent_id note db)) = length (consents db) \<and>
     consent_texts (revoke_consent now consent_id note db) = consent_texts db \<and>
     (revoked_at (consents db ! k) = None \<longrightarrow>
        consents (revoke_consent now consent_id note db) ! k =
          (consents db ! k)\<lparr>is_granted := 0, revoked_at := Some now, revocation_note := note\<rparr>) \<and>
     (revoked_at (consents db ! k) \<noteq> None \<longrightarrow>
        consents (revoke_consent now consent_id note db) ! k = consents db ! k)"
  using assms by (simp add: revoke_consent_def)


theorem revoke_consent_active_witness:
  "0 < length (consents db_a) \<and> cid (consents db_a ! 0) = ''a1'' \<and>
   revoked_at (consents db_a ! 0) = None \<and>
   consents (revoke_consent ''2024-03-02T08:00:00.500000+00:00'' ''a1'' (Some ''Widerruf'')
     db_a) ! 0 = consent_a_revoked \<and>
   0 < length (consents db_a_revoked) \<and> cid (consents db_a_revoked ! 0) = ''a1'' \<and>
   revoked_at (consents db_a_revoked ! 0) \<noteq> None \<and>
   consents (revoke_consent ''2024-04-01T10:00:00.000001+00:00'' ''a1'' (Some ''again'')
     db_a_revoked) ! 0 = consent_a_revoked"
proof -
  have 1: "0 < length (consents db_a)" by (simp add: db_a_def)
  have 2: "cid (consents db_a ! 0) = ''a1''" by (simp add: db_a_def consent_a_def)
  have 3: "revoked_at (consents db_a ! 0) = None" by (simp add: db_a_def consent_a_def)
  from revoke_consent_active [OF 1 2] 3
  have "consents (revoke_consent ''2024-03-02T08:00:00.500000+00:00'' ''a1''
      (Some ''Widerruf'') db_a) ! 0 =
    (consents db_a ! 0)\<lparr>is_granted := 0,
      revoked_at := Some ''2024-03-02T08:00:00.500000+00:00'',
      revocation_note := Some ''Widerruf''\<rparr>"
    by blast
  then have 4: "consents (revoke_consent ''2024-03-02T08:00:00.500000+00:00'' ''a1''
      (Some ''Widerruf'') db_a) ! 0 = consent_a_revoked"
    by (simp add: db_a_def consent_a_revoked_def)
  have 5: "0 < length (consents db_a_revoked)" by (simp add: db_a_revoked_def)
  have 6: "cid (consents db_a_revoked ! 0) = ''a1''"
    by (simp add: db_a_revoked_def consent_a_revoked_def consent_a_def)
  have 7: "revoked_at (consents db_a_revoked ! 0) \<noteq> None"
    by (simp add: db_a_revoked_def consent_a_revoked_def)
  from revoke_consent_active [OF 5 6] 7
  have "consents (revoke_consent ''2024-04-01T10:00:00.000001+00:00'' ''a1'' (Some ''again'')
     db_a_revoked) ! 0 = consents db_a_revoked ! 0"
    by blast
  then have 8: "consents (revoke_consent ''2024-04-01T10:00:00.000001+00:00'' ''a1''
      (Some ''again'') db_a_revoked) ! 0 = consent_a_revoked"
    by (simp add: db_a_revoked_def)
  from 1 2 3 4 5 6 7 8 show ?thesis by (intro conjI)
qed

lemma revoke_consent_revokes:
  "r \<in> set (consents (revoke_consent now consent_id note db)) \<Longrightarrow>
   cid r = consent_id \<Longrightarrow> revoked_at r \<noteq> None"
proof -
  assume a: "r \<in> set (consents (revoke_consent now consent_id note db))" and b: "cid r = consent_id"
  from a obtain r0 where r0: "r0 \<in> set (consents db)"
    and r: "r = (if cid r0 = consent_id \<and> revoked_at r0 = None
                    then r0\<lparr>is_granted := 0, revoked_at := Some now, revocation_note := note\<rparr>
                    else r0)"
    unfolding revoke_consent_def by auto
  show ?thesis
  proof (cases "cid r0 = consent_id \<and> revoked_at r0 = None")
    case True
    with r show ?thesis by simp
  next
    case False
    with r have "r = r0" by simp
    with False b show ?thesis by simp
  qed
qed

lemma revoke_consent_noop:
  assumes "\<forall>r \<in> set (consents db). cid r = consent_id \<longrightarrow> revoked_at r \<noteq> None"
  shows "revoke_consent now consent_id note db = db"
proof -
  have "map (\<lambda>r. if cid r = consent_id \<and> revoked_at r = None
                    then r\<lparr>is_granted := 0, revoked_at := Some now, revocation_note := note\<rparr>
                    else r) (consents db) = consents db"
    using assms by (intro map_idI) auto
  then show ?thesis by (simp add: revoke_consent_def)
qed

text \<open>
  C3. A second \<open>revoke_consent\<close> of the same identifier, at another time and with another
  note, returns the database the first one returned: nothing of it is overwritten.
  On a database in which every record of the identifier is revoked already, and so on
  one that has no record of the identifier, \<open>revoke_consent\<close> returns the database
  unchanged. The function has no failing path.
\<close>

theorem revoke_consent_idempotent:
  "revoke_consent now' consent_id note' (revoke_consent now consent_id note db) =
     revoke_consent now consent_id note db \<and>
   ((\<forall>r \<in> set (consents db). cid r = consent_id \<longrightarrow> revoked_at r \<noteq> None) \<longrightarrow>
      revoke_consent now consent_id note db = db) \<and>
   (consent_id \<notin> cid ` set (consents db) \<longrightarrow> revoke_consent now consent_id note db = db)"
proof (intro conjI impI)
  have "\<forall>r \<in> set (consents (revoke_consent now consent_id note db)).
          cid r = consent_id \<longrightarrow> revoked_at r \<noteq> None"
    using revoke_consent_revokes [of _ now consent_id "note" db] by (intro ballI impI)
  then show "revoke_consent now' consent_id note' (revoke_consent now consent_id note db) =
     revoke_consent now consent_id note db"
    by (rule revoke_consent_noop)
next
  assume "\<forall>r \<in> set (consents db). cid r = consent_id \<longrightarrow> revoked_at r \<noteq> None"
  then show "revoke_consent now consent_id note db = db" by (rule revoke_consent_noop)
next
  assume a: "consent_id \<notin> cid ` set (consents db)"
  have "\<forall>r \<in> set (consents db). cid r = consent_id \<longrightarrow> revoked_at r \<noteq> None"
  proof (intro ballI impI)
    fix r assume "r \<in> set (consents db)" "cid r = consent_id"
    then have "consent_id \<in> cid ` set (consents db)" by (rule_tac image_eqI) simp_all
    with a show "revoked_at r \<noteq> None" by simp
  qed
  then show "revoke_consent now consent_id note db = db" by (rule revoke_consent_noop)
qed

theorem revoke_consent_idempotent_witness:
  "revoke_consent ''2024-04-01T10:00:00.000001+00:00'' ''a1'' (Some ''again'')
     (revoke_consent ''2024-03-02T08:00:00.500000+00:00'' ''a1'' (Some ''Widerruf'') db_a) =
   db_a_revoked \<and>
   revoke_consent ''2024-03-02T08:00:00.500000+00:00'' ''a1'' (Some ''Widerruf'') db_a =
   db_a_revoked \<and>
   ''zz'' \<notin> cid ` set (consents db_a) \<and>
   revoke_consent ''2024-04-01T10:00:00.000001+00:00'' ''zz'' (Some ''again'') db_a = db_a"
proof -
  have 1: "revoke_consent ''2024-03-02T08:00:00.500000+00:00'' ''a1'' (Some ''Widerruf'') db_a =
     db_a_revoked"
    by (simp add: revoke_consent_def db_a_def db_a_revoked_def consent_a_revoked_def
        consent_a_def)
  have 2: "''zz'' \<notin> cid ` set (consents db_a)" by (simp add: db_a_def consent_a_def)
  from revoke_consent_idempotent [of "''2024-04-01T10:00:00.000001+00:00''" "''a1''"
      "Some ''again''" "''2024-03-02T08:00:00.500000+00:00''" "Some ''Widerruf''" db_a]
  have "revoke_consent ''2024-04-01T10:00:00.000001+00:00'' ''a1'' (Some ''again'')
     (revoke_consent ''2024-03-02T08:00:00.500000+00:00'' ''a1'' (Some ''Widerruf'') db_a) =
     revoke_consent ''2024-03-02T08:00:00.500000+00:00'' ''a1'' (Some ''Widerruf'') db_a"
    by blast
  then have 3: "revoke_consent ''2024-04-01T10:00:00.000001+00:00'' ''a1'' (Some ''again'')
     (revoke_consent ''2024-03-02T08:00:00.500000+00:00'' ''a1'' (Some ''Widerruf'') db_a) =
     db_a_revoked"
    by (simp only: 1)
  from revoke_consent_idempotent [of "''2024-04-01T10:00:00.000001+00:00''" "''zz''"
      "Some ''again''" "''2024-04-01T10:00:00.000001+00:00''" "Some ''again''" db_a] 2
  have 4: "revoke_consent ''2024-04-01T10:00:00.000001+00:00'' ''zz'' (Some ''again'') db_a =
     db_a"
    by blast
  from 1 2 3 4 show ?thesis by (intro conjI)
qed

subsection \<open>Saving a consent\<close>

text \<open>
  C6, as the code has it. When the identifier drawn is not yet the \<open>id\<close> of a record and
  the \<open>id\<close> of the snapshot row is the \<open>id\<close> of a stored consent text, \<open>save_consent\<close>
  returns the identifier and appends exactly one record: \<open>created_at\<close> is the time of
  the call, \<open>is_granted\<close> is 1, \<open>revoked_at\<close> and \<open>revocation_note\<close> are \<open>NULL\<close>, and
  \<open>consent_text_id\<close>, \<open>consent_text_version\<close> and \<open>consent_text_hash\<close> are those of the
  snapshot row. Any other call raises \<open>sqlite3.IntegrityError\<close>.
\<close>

theorem save_consent_inserts:
  "(uuid4 \<notin> cid ` set (consents db) \<and> ct_id ct_row \<in> ct_id ` set (consent_texts db) \<longrightarrow>
     (\<exists>r. save_consent dumps uuid4 now email name purposes ct_row db =
            Inr (uuid4, db\<lparr>consents := consents db @ [r]\<rparr>) \<and>
          cid r = uuid4 \<and> created_at r = now \<and>
          subject_email r = or_None email \<and> subject_name r = or_None name \<and>
          purposes_json r = dumps purposes \<and>
          consent_text_id r = ct_id ct_row \<and> consent_text_version r = ct_version ct_row \<and>
          consent_text_hash r = ct_body_hash ct_row \<and>
          is_granted r = 1 \<and> revoked_at r = None \<and> revocation_note r = None)) \<and>
   (uuid4 \<in> cid ` set (consents db) \<longrightarrow>
      save_consent dumps uuid4 now email name purposes ct_row db = Inl UniqueConstraintFailed) \<and>
   (uuid4 \<notin> cid ` set (consents db) \<and> ct_id ct_row \<notin> ct_id ` set (consent_texts db) \<longrightarrow>
      save_consent dumps uuid4 now email name purposes ct_row db =
        Inl ForeignKeyConstraintFailed)"
proof -
  let ?r = "\<lparr>cid = uuid4, created_at = now, subject_email = or_None email,
       subject_name = or_None name, purposes_json = dumps purposes,
       consent_text_id = ct_id ct_row, consent_text_version = ct_version ct_row,
       consent_text_hash = ct_body_hash ct_row,
       is_granted = 1, revoked_at = None, revocation_note = None\<rparr>"
  have "save_consent dumps uuid4 now email name purposes ct_row db =
            Inr (uuid4, db\<lparr>consents := consents db @ [?r]\<rparr>) \<and>
          cid ?r = uuid4 \<and> created_at ?r = now \<and>
          subject_email ?r = or_None email \<and> subject_name ?r = or_None name \<and>
          purposes_json ?r = dumps purposes \<and>
          consent_text_id ?r = ct_id ct_row \<and> consent_text_version ?r = ct_version ct_row \<and>
          consent_text_hash ?r = ct_body_hash ct_row \<and>
          is_granted ?r = 1 \<and> revoked_at ?r = None \<and> revocation_note ?r = None"
    if "uuid4 \<notin> cid ` set (consents db)" "ct_id ct_row \<in> ct_id ` set (consent_texts db)"
    using that by (simp add: save_consent_def Let_def)
  then have 1: "uuid4 \<notin> cid ` set (consents db) \<and>
      ct_id ct_row \<in> ct_id ` set (consent_texts db) \<longrightarrow>
     (\<exists>r. save_consent dumps uuid4 now email name purposes ct_row db =
            Inr (uuid4, db\<lparr>consents := consents db @ [r]\<rparr>) \<and>
          cid r = uuid4 \<and> created_at r = now \<and>
          subject_email r = or_None email \<and> subject_name r = or_None name \<and>
          purposes_json r = dumps purposes \<and>
          consent_text_id r = ct_id ct_row \<and> consent_text_version r = ct_version ct_row \<and>
          consent_text_hash r = ct_body_hash ct_row \<and>
          is_granted r = 1 \<and> revoked_at r = None \<and> revocation_note r = None)"
    by (intro impI exI [of _ ?r]) simp
  have 2: "uuid4 \<in> cid ` set (consents db) \<longrightarrow>
      save_consent dumps uuid4 now email name purposes ct_row db = Inl UniqueConstraintFailed"
    by (simp add: save_consent_def Let_def)
  have 3: "uuid4 \<notin> cid ` set (consents db) \<and>
      ct_id ct_row \<notin> ct_id ` set (consent_texts db) \<longrightarrow>
      save_consent dumps uuid4 now email name purposes ct_row db =
        Inl ForeignKeyConstraintFailed"
    by (simp add: save_consent_def Let_def)
  from 1 2 3 show ?thesis by (intro conjI)
qed


theorem save_consent_inserts_witness:
  "''b2'' \<notin> cid ` set (consents db_a) \<and> ct_id text_v1 \<in> ct_id ` set (consent_texts db_a) \<and>
   save_consent example_dumps ''b2'' ''2024-03-01T12:00:00.900000+00:00''
     (Some ''a@example.com'') (Some []) [(''newsletter'', True)] text_v1 db_a =
     Inr (''b2'', db_ab) \<and>
   ''a1'' \<in> cid ` set (consents db_a) \<and>
   save_consent example_dumps ''a1'' ''2024-04-01T12:00:00.000001+00:00''
     None None [(''newsletter'', True)] text_v1 db_a = Inl UniqueConstraintFailed \<and>
   ct_id text_v2 \<notin> ct_id ` set (consent_texts db_a) \<and>
   save_consent example_dumps ''b2'' ''2024-04-01T12:00:00.000001+00:00''
     None None [(''newsletter'', True)] text_v2 db_a = Inl ForeignKeyConstraintFailed"
proof -
  have 1: "''b2'' \<notin> cid ` set (consents db_a)" by (simp add: db_a_def consent_a_def)
  have 2: "ct_id text_v1 \<in> ct_id ` set (consent_texts db_a)" by (simp add: db_a_def)
  have 3: "''a1'' \<in> cid ` set (consents db_a)" by (simp add: db_a_def consent_a_def)
  have 4: "ct_id text_v2 \<notin> ct_id ` set (consent_texts db_a)"
    by (simp add: db_a_def text_v1_def text_v2_def)
  from save_consent_inserts [of "''b2''" db_a text_v1 example_dumps
      "''2024-03-01T12:00:00.900000+00:00''" "Some ''a@example.com''" "Some []"
      "[(''newsletter'', True)]"] 1 2
  obtain r where r: "save_consent example_dumps ''b2'' ''2024-03-01T12:00:00.900000+00:00''
     (Some ''a@example.com'') (Some []) [(''newsletter'', True)] text_v1 db_a =
       Inr (''b2'', db_a\<lparr>consents := consents db_a @ [r]\<rparr>)"
    by blast
  have "save_consent example_dumps ''b2'' ''2024-03-01T12:00:00.900000+00:00''
     (Some ''a@example.com'') (Some []) [(''newsletter'', True)] text_v1 db_a =
     Inr (''b2'', db_ab)"
    by (simp add: save_consent_def Let_def or_None_def example_dumps_def db_a_def db_ab_def
        consent_a_def consent_b_def text_v1_def)
  with r have 5: "save_consent example_dumps ''b2'' ''2024-03-01T12:00:00.900000+00:00''
     (Some ''a@example.com'') (Some []) [(''newsletter'', True)] text_v1 db_a =
     Inr (''b2'', db_ab)" by simp
  from save_consent_inserts [of "''a1''" db_a text_v1 example_dumps
      "''2024-04-01T12:00:00.000001+00:00''" None None "[(''newsletter'', True)]"] 3
  have 6: "save_consent example_dumps ''a1'' ''2024-04-01T12:00:00.000001+00:00''
     None None [(''newsletter'', True)] text_v1 db_a = Inl UniqueConstraintFailed"
    by blast
  from save_consent_inserts [of "''b2''" db_a text_v2 example_dumps
      "''2024-04-01T12:00:00.000001+00:00''" None None "[(''newsletter'', True)]"] 1 4
  have 7: "save_consent example_dumps ''b2'' ''2024-04-01T12:00:00.000001+00:00''
     None None [(''newsletter'', True)] text_v2 db_a = Inl ForeignKeyConstraintFailed"
    by blast
  from 1 2 3 4 5 6 7 show ?thesis by (intro conjI)
qed

text \<open>
  C6 as it is stated, that every call inserts a record and returns its identifier,
  fails for a snapshot row that is no row of \<open>consent_texts\<close>: on the empty database
  the foreign key refuses the insert.
\<close>

theorem save_consent_foreign_key_counterexample:
  "save_consent example_dumps ''a1'' ''2024-03-01T12:00:00.100000+00:00'' None None
     [(''newsletter'', True)] text_v1 init_db = Inl ForeignKeyConstraintFailed"
  by (simp add: save_consent_def Let_def init_db_def)

subsection \<open>Filtering and ordering the list of consents\<close>

text \<open>
  C7, as the code has it. With a filter that is not the empty string, \<open>list_consents\<close>
  returns the selected columns of exactly the records whose \<open>subject_email\<close> is that
  string, each once; a record without email is none of them. With no filter it returns
  every record. In every case a row comes before each row whose
  \<open>datetime(created_at)\<close> is smaller.
\<close>

lemma row_created_at_select [simp]: "row_created_at (select_columns r) = created_at r"
  by (simp add: row_created_at_def select_columns_def)

theorem list_consents_filter:
  "(f \<noteq> [] \<longrightarrow>
      mset (list_consents datetime (Some f) db) =
        mset (map select_columns (filter (\<lambda>r. subject_email r = Some f) (consents db)))) \<and>
   mset (list_consents datetime None db) = mset (map select_columns (consents db)) \<and>
   sorted_wrt (\<lambda>a b. datetime (row_created_at b) \<le> datetime (row_created_at a))
     (list_consents datetime email_filter db)"
proof -
  have "sorted_wrt (\<lambda>a b. datetime (row_created_at b) \<le> datetime (row_created_at a))
     (map select_columns (order_by_desc (\<lambda>r. datetime (created_at r)) rows))" for rows
    using sorted_order_by_desc [of "\<lambda>r. datetime (created_at r)" rows]
    by (simp add: sorted_wrt_map)
  then show ?thesis
    by (simp add: list_consents_def Let_def mset_order_by_desc)
qed


theorem list_consents_filter_witness:
  "''a@example.com'' \<noteq> [] \<and>
   mset (list_consents example_datetime (Some ''a@example.com'') db_ab) =
     {#select_columns consent_b#}"
proof -
  have 1: "''a@example.com'' \<noteq> []" by simp
  from list_consents_filter [of "''a@example.com''" example_datetime db_ab] 1
  have "mset (list_consents example_datetime (Some ''a@example.com'') db_ab) =
     mset (map select_columns
       (filter (\<lambda>r. subject_email r = Some ''a@example.com'') (consents db_ab)))"
    by blast
  then have "mset (list_consents example_datetime (Some ''a@example.com'') db_ab) =
     {#select_columns consent_b#}"
    by (simp add: db_ab_def consent_a_def consent_b_def)
  with 1 show ?thesis by (intro conjI)
qed

text \<open>
  C7 as it is stated fails for the empty string given as filter: the only record of
  the table has no email, and the call returns it.
\<close>

theorem list_consents_filter_counterexample:
  "list_consents example_datetime (Some []) db_a = [select_columns consent_a] \<and>
   subject_email consent_a \<noteq> Some []"
  by (simp add: list_consents_def db_a_def consent_a_def)

text \<open>
  The order is that of \<open>datetime(created_at)\<close>, which has whole seconds. Two consents
  given in the same second have equal keys and are listed in table order, the older
  one first.
\<close>

lemma list_consents_same_second:
  "list_consents example_datetime None db_ab = [select_columns consent_a, select_columns consent_b] \<and>
   created_at consent_a < created_at consent_b"
  by (simp add: list_consents_def db_ab_def consent_a_def consent_b_def example_datetime_def)

subsection \<open>Revocation is final\<close>

text \<open>
  C8. A record whose \<open>revoked_at\<close> is set stays in the table, at its position and with
  every column as it is, whatever calls of the data layer follow: \<open>revoked_at\<close> is not
  cleared, \<open>is_granted\<close> is not changed and the record is not removed.
\<close>

lemma step_keeps_revoked:
  assumes "k < length (consents db)" and "revoked_at (consents db ! k) \<noteq> None"
  shows "k < length (consents (step sha dumps op db)) \<and>
         consents (step sha dumps op db) ! k = consents db ! k"
proof (cases op)
  case (Save_consent u now email name purposes ct_row)
  show ?thesis
  proof (cases "save_consent dumps u now email name purposes ct_row db")
    case (Inl e)
    with Save_consent assms show ?thesis by simp
  next
    case (Inr p)
    obtain i db' where p: "p = (i, db')" by (cases p)
    from consents_save [OF Inr [unfolded p]] Inr p Save_consent assms show ?thesis
      by (simp add: nth_append)
  qed
next
  case (Revoke_consent now consent_id nt)
  with assms show ?thesis by (auto simp add: revoke_consent_def)
qed (insert assms, simp_all)

theorem revoked_is_terminal:
  assumes "k < length (consents db)" and "revoked_at (consents db ! k) \<noteq> None"
  shows "k < length (consents (run sha dumps ops db)) \<and>
         consents (run sha dumps ops db) ! k = consents db ! k"
  using assms
proof (induction ops arbitrary: db)
  case Nil
  then show ?case by (simp add: run_def)
next
  case (Cons op ops)
  from step_keeps_revoked [OF Cons.prems, of sha dumps op]
  have 1: "k < length (consents (step sha dumps op db))"
    and 2: "consents (step sha dumps op db) ! k = consents db ! k" by simp_all
  from 2 Cons.prems have 3: "revoked_at (consents (step sha dumps op db) ! k) \<noteq> None" by simp
  from Cons.IH [OF 1 3] 2 show ?case by (simp add: run_def)
qed


theorem revoked_is_terminal_witness:
  "0 < length (consents db_a_revoked) \<and> revoked_at (consents db_a_revoked ! 0) \<noteq> None \<and>
   consents (run example_digest example_dumps later_calls db_a_revoked) ! 0 = consent_a_revoked"
proof -
  have 1: "0 < length (consents db_a_revoked)" by (simp add: db_a_revoked_def)
  have 2: "revoked_at (consents db_a_revoked ! 0) \<noteq> None"
    by (simp add: db_a_revoked_def consent_a_revoked_def)
  from revoked_is_terminal [OF 1 2, of example_digest example_dumps later_calls]
  have "consents (run example_digest example_dumps later_calls db_a_revoked) ! 0 =
     consents db_a_revoked ! 0" by blast
  then have "consents (run example_digest example_dumps later_calls db_a_revoked) ! 0 =
     consent_a_revoked" by (simp add: db_a_revoked_def)
  with 1 2 show ?thesis by (intro conjI)
qed

subsection \<open>\<open>is_granted\<close> and \<open>revoked_at\<close> agree\<close>

text \<open>
  C9. In every database reached from the empty one by calls of the data layer, each
  record has \<open>is_granted = 1\<close> exactly when its \<open>revoked_at\<close> is \<open>NULL\<close>, and
  \<open>is_granted = 0\<close> exactly when it is set.
\<close>

lemma step_consistent:
  assumes "\<forall>r \<in> set (consents db). consistent r"
  shows "\<forall>r \<in> set (consents (step sha dumps op db)). consistent r"
proof (cases op)
  case (Save_consent u now email name purposes ct_row)
  show ?thesis
  proof (cases "save_consent dumps u now email name purposes ct_row db")
    case (Inl e)
    with Save_consent assms show ?thesis by simp
  next
    case (Inr p)
    obtain i db' where p: "p = (i, db')" by (cases p)
    from consents_save [OF Inr [unfolded p]] Inr p Save_consent assms show ?thesis
      by (auto simp add: consistent_def)
  qed
next
  case (Revoke_consent now consent_id nt)
  with assms show ?thesis by (auto simp add: revoke_consent_def consistent_def)
qed (insert assms, simp_all)

lemma run_consistent:
  "\<forall>r \<in> set (consents db). consistent r \<Longrightarrow>
   \<forall>r \<in> set (consents (run sha dumps ops db)). consistent r"
proof (induction ops arbitrary: db)
  case Nil
  then show ?case by (simp add: run_def)
next
  case (Cons op ops)
  from Cons.IH [OF step_consistent [OF Cons.prems, of sha dumps op]]
  show ?case by (simp add: run_def)
qed

theorem granted_iff_not_revoked:
  "\<forall>r \<in> set (consents (run sha dumps ops init_db)).
     (is_granted r = 1) = (revoked_at r = None) \<and> (is_granted r = 0) = (revoked_at r \<noteq> None)"
proof -
  have "\<forall>r \<in> set (consents init_db). consistent r" by (simp add: init_db_def)
  from run_consistent [OF this, of sha dumps ops] show ?thesis
    by (auto simp add: consistent_def split: if_splits)
qed

theorem granted_iff_not_revoked_witness:
  "consent_a_revoked \<in> set (consents (run example_digest example_dumps history init_db)) \<and>
   (is_granted consent_a_revoked = 1) = (revoked_at consent_a_revoked = None) \<and>
   (is_granted consent_a_revoked = 0) = (revoked_at consent_a_revoked \<noteq> None)"
proof -
  have 1: "consent_a_revoked \<in> set (consents (run example_digest example_dumps history init_db))"
    by (simp add: run_def history_def init_db_def upsert_consent_text_def save_consent_def
        revoke_consent_def Let_def or_None_def example_digest_def example_dumps_def
        text_v1_def consent_a_revoked_def consent_a_def)
  from granted_iff_not_revoked [of example_digest example_dumps history] 1
  have "(is_granted consent_a_revoked = 1) = (revoked_at consent_a_revoked = None) \<and>
   (is_granted consent_a_revoked = 0) = (revoked_at consent_a_revoked \<noteq> None)"
    by blast
  with 1 show ?thesis by (intro conjI) simp_all
qed


subsection \<open>The snapshot of a consent does not drift\<close>

lemma cid_snapshot: "cid ` set rs = fst ` set (map snapshot rs)"
  by (induction rs) (simp_all add: snapshot_def)

lemma snapshot_revoke:
  "map snapshot (consents (revoke_consent now consent_id note db)) = map snapshot (consents db)"
  by (simp add: revoke_consent_def snapshot_def)

lemma consents_step_save:
  "consents (step sha dumps (Save_consent u now email name purposes ct_row) db) =
     (if u \<in> cid ` set (consents db) \<or> ct_id ct_row \<notin> ct_id ` set (consent_texts db)
      then consents db
      else consents db @
        [\<lparr>cid = u, created_at = now, subject_email = or_None email,
          subject_name = or_None name, purposes_json = dumps purposes,
          consent_text_id = ct_id ct_row, consent_text_version = ct_version ct_row,
          consent_text_hash = ct_body_hash ct_row,
          is_granted = 1, revoked_at = None, revocation_note = None\<rparr>])"
  by (simp add: save_consent_def Let_def)

lemma step_snapshot:
  "\<exists>ys. map snapshot (consents (step sha dumps op db)) = map snapshot (consents db) @ ys \<and>
        fst ` set ys \<inter> cid ` set (consents db) = {}"
proof (cases op)
  case (Save_consent u now email name purposes ct_row)
  let ?r = "\<lparr>cid = u, created_at = now, subject_email = or_None email,
          subject_name = or_None name, purposes_json = dumps purposes,
          consent_text_id = ct_id ct_row, consent_text_version = ct_version ct_row,
          consent_text_hash = ct_body_hash ct_row,
          is_granted = 1, revoked_at = None, revocation_note = None\<rparr>"
  show ?thesis
  proof (cases "u \<in> cid ` set (consents db) \<or> ct_id ct_row \<notin> ct_id ` set (consent_texts db)")
    case True
    then have "consents (step sha dumps op db) = consents db"
      unfolding Save_consent consents_step_save by simp
    then have "map snapshot (consents (step sha dumps op db)) = map snapshot (consents db) @ [] \<and>
        fst ` set [] \<inter> cid ` set (consents db) = {}" by simp
    then show ?thesis by (rule exI)
  next
    case False
    then have "consents (step sha dumps op db) = consents db @ [?r]"
      unfolding Save_consent consents_step_save by simp
    moreover from False have "u \<notin> cid ` set (consents db)" by simp
    ultimately have "map snapshot (consents (step sha dumps op db)) =
        map snapshot (consents db) @ [snapshot ?r] \<and>
        fst ` set [snapshot ?r] \<inter> cid ` set (consents db) = {}"
      by (simp add: snapshot_def)
    then show ?thesis by (rule exI)
  qed
next
  case (Revoke_consent now consent_id nt)
  have "map snapshot (consents (step sha dumps op db)) = map snapshot (consents db) @ [] \<and>
        fst ` set [] \<inter> cid ` set (consents db) = {}"
    unfolding Revoke_consent by (simp add: snapshot_revoke)
  then show ?thesis by (rule exI)
next
  case (Upsert_consent_text now version language title body)
  have "map snapshot (consents (step sha dumps op db)) = map snapshot (consents db) @ [] \<and>
        fst ` set [] \<inter> cid ` set (consents db) = {}"
    unfolding Upsert_consent_text by simp
  then show ?thesis by (rule exI)
next
  case (Get_latest_consent_text language)
  have "map snapshot (consents (step sha dumps op db)) = map snapshot (consents db) @ [] \<and>
        fst ` set [] \<inter> cid ` set (consents db) = {}"
    unfolding Get_latest_consent_text by simp
  then show ?thesis by (rule exI)
next
  case List_consent_texts
  have "map snapshot (consents (step sha dumps op db)) = map snapshot (consents db) @ [] \<and>
        fst ` set [] \<inter> cid ` set (consents db) = {}"
    unfolding List_consent_texts by simp
  then show ?thesis by (rule exI)
next
  case (List_consents email_filter)
  have "map snapshot (consents (step sha dumps op db)) = map snapshot (consents db) @ [] \<and>
        fst ` set [] \<inter> cid ` set (consents db) = {}"
    unfolding List_consents by simp
  then show ?thesis by (rule exI)
qed

lemma run_Cons: "run sha dumps (op # ops) db = run sha dumps ops (step sha dumps op db)"
  by (simp add: run_def)

lemma run_Nil: "run sha dumps [] db = db"
  by (simp add: run_def)

lemma run_snapshot:
  "\<exists>ys. map snapshot (consents (run sha dumps ops db)) = map snapshot (consents db) @ ys \<and>
        fst ` set ys \<inter> cid ` set (consents db) = {}"
proof (induction ops arbitrary: db)
  case Nil
  have "map snapshot (consents (run sha dumps [] db)) = map snapshot (consents db) @ [] \<and>
        fst ` set [] \<inter> cid ` set (consents db) = {}"
    by (simp add: run_Nil)
  then show ?case by (rule exI)
next
  case (Cons op ops)
  let ?db' = "step sha dumps op db"
  from step_snapshot [of sha dumps op db] obtain ys1 where
    1: "map snapshot (consents ?db') = map snapshot (consents db) @ ys1"
    and 2: "fst ` set ys1 \<inter> cid ` set (consents db) = {}" by (elim exE conjE)
  from Cons.IH [of ?db'] obtain ys2 where
    3: "map snapshot (consents (run sha dumps ops ?db')) = map snapshot (consents ?db') @ ys2"
    and 4: "fst ` set ys2 \<inter> cid ` set (consents ?db') = {}" by (elim exE conjE)
  have "cid ` set (consents ?db') = fst ` set (map snapshot (consents db) @ ys1)"
    by (simp only: cid_snapshot 1)
  also have "\<dots> = cid ` set (consents db) \<union> fst ` set ys1"
    by (simp only: set_append image_Un cid_snapshot)
  finally have 5: "cid ` set (consents ?db') = cid ` set (consents db) \<union> fst ` set ys1" .
  from 4 have 6: "fst ` set ys2 \<inter> cid ` set (consents db) = {}"
    unfolding 5 by (simp add: Int_Un_distrib)
  have 7: "map snapshot (consents (run sha dumps (op # ops) db)) =
      map snapshot (consents db) @ (ys1 @ ys2)"
    by (simp only: run_Cons 3 1 append_assoc)
  have 8: "fst ` set (ys1 @ ys2) \<inter> cid ` set (consents db) = {}"
    using 2 6 by (simp add: image_Un Int_Un_distrib2)
  from 7 8 have "map snapshot (consents (run sha dumps (op # ops) db)) =
      map snapshot (consents db) @ (ys1 @ ys2) \<and>
      fst ` set (ys1 @ ys2) \<inter> cid ` set (consents db) = {}" by (rule conjI)
  then show ?case by (rule exI)
qed

lemma run_upserts:
  "list_all is_upsert ops \<Longrightarrow> consents (run sha dumps ops db) = consents db"
proof (induction ops arbitrary: db)
  case Nil
  then show ?case by (simp add: run_Nil)
next
  case (Cons op ops)
  from Cons.prems have u: "is_upsert op" and r: "list_all is_upsert ops" by simp_all
  from u have s: "consents (step sha dumps op db) = consents db" by (cases op) simp_all
  from Cons.IH [OF r, of "step sha dumps op db"] s show ?case by (simp only: run_Cons)
qed

text \<open>
  C1. Let \<open>save_consent\<close> have stored a record under the identifier \<open>i\<close> for the
  snapshot row \<open>ct_row\<close>, and let any calls of the data layer follow. Then every record
  the table had after the save still has its identifier and its \<open>consent_text_id\<close>,
  \<open>consent_text_version\<close> and \<open>consent_text_hash\<close>, and the table holds exactly one
  record with the identifier \<open>i\<close>, whose version and hash are those of \<open>ct_row\<close>. If
  the calls that follow are all \<open>upsert_consent_text\<close>, the unfiltered
  \<open>list_consents\<close> is what it was before the save plus exactly one row; that row has
  the identifier \<open>i\<close>, which no row had before, and the version of \<open>ct_row\<close>.
  (\<open>list_consents\<close> does not select the hash; it is read from the record of that
  identifier.)
\<close>

theorem snapshot_frozen:
  assumes "save_consent dumps u now email name purposes ct_row db = Inr (i, db1)"
  shows "take (length (consents db1)) (map snapshot (consents (run sha dumps ops db1))) =
       map snapshot (consents db1) \<and>
     filter (\<lambda>s. fst s = i) (map snapshot (consents (run sha dumps ops db1))) =
       [(i, ct_id ct_row, ct_version ct_row, ct_body_hash ct_row)] \<and>
     (list_all is_upsert ops \<longrightarrow>
        (\<exists>row. mset (list_consents datetime None (run sha dumps ops db1)) =
                 add_mset row (mset (list_consents datetime None db)) \<and>
               row_id row = i \<and> row_version row = ct_version ct_row \<and>
               i \<notin> row_id ` set (list_consents datetime None db)))"
proof (intro conjI impI)
  let ?r = "\<lparr>cid = u, created_at = now, subject_email = or_None email,
       subject_name = or_None name, purposes_json = dumps purposes,
       consent_text_id = ct_id ct_row, consent_text_version = ct_version ct_row,
       consent_text_hash = ct_body_hash ct_row,
       is_granted = 1, revoked_at = None, revocation_note = None\<rparr>"
  note saved = consents_save [OF assms]
  from saved have i: "i = u" by (elim conjE)
  from saved have u: "u \<notin> cid ` set (consents db)" by (elim conjE)
  from saved have db1: "consents db1 = consents db @ [?r]" by (elim conjE)
  from run_snapshot [of sha dumps ops db1] obtain ys where
    ys: "map snapshot (consents (run sha dumps ops db1)) = map snapshot (consents db1) @ ys"
    and fresh: "fst ` set ys \<inter> cid ` set (consents db1) = {}" by (elim exE conjE)
  show "take (length (consents db1)) (map snapshot (consents (run sha dumps ops db1))) =
       map snapshot (consents db1)" by (simp add: ys)
  have "\<forall>s \<in> set (map snapshot (consents db)). fst s \<noteq> u"
    using u unfolding cid_snapshot by (auto simp add: image_iff)
  then have f1: "filter (\<lambda>s. fst s = u) (map snapshot (consents db)) = []"
    by (simp only: filter_empty_conv)
  have "u \<in> cid ` set (consents db1)" unfolding db1 by simp
  with fresh have "u \<notin> fst ` set ys" by blast
  then have "\<forall>s \<in> set ys. fst s \<noteq> u" by (auto simp add: image_iff)
  then have f2: "filter (\<lambda>s. fst s = u) ys = []"
    by (simp only: filter_empty_conv)
  have "filter (\<lambda>s. fst s = u) (map snapshot (consents (run sha dumps ops db1))) =
       [(u, ct_id ct_row, ct_version ct_row, ct_body_hash ct_row)]"
    unfolding ys db1 map_append filter_append f1 f2 by (simp add: snapshot_def)
  then show "filter (\<lambda>s. fst s = i) (map snapshot (consents (run sha dumps ops db1))) =
       [(i, ct_id ct_row, ct_version ct_row, ct_body_hash ct_row)]" unfolding i .
  assume up: "list_all is_upsert ops"
  from run_upserts [OF up, of sha dumps db1] db1
  have "consents (run sha dumps ops db1) = consents db @ [?r]" by simp
  then have 1: "mset (list_consents datetime None (run sha dumps ops db1)) =
      add_mset (select_columns ?r) (mset (list_consents datetime None db))"
    by (simp add: list_consents_def mset_order_by_desc)
  have 2: "row_id (select_columns ?r) = i"
    by (simp add: row_id_def select_columns_def i)
  have 3: "row_version (select_columns ?r) = ct_version ct_row"
    by (simp add: row_version_def select_columns_def)
  have "row_id ` set (list_consents datetime None db) = cid ` set (consents db)"
    by (simp add: list_consents_def set_order_by_desc image_image row_id_def
        select_columns_def)
  with u i have 4: "i \<notin> row_id ` set (list_consents datetime None db)" by simp
  from 1 2 3 4 have "mset (list_consents datetime None (run sha dumps ops db1)) =
      add_mset (select_columns ?r) (mset (list_consents datetime None db)) \<and>
    row_id (select_columns ?r) = i \<and> row_version (select_columns ?r) = ct_version ct_row \<and>
    i \<notin> row_id ` set (list_consents datetime None db)" by (intro conjI)
  then show "\<exists>row. mset (list_consents datetime None (run sha dumps ops db1)) =
                 add_mset row (mset (list_consents datetime None db)) \<and>
               row_id row = i \<and> row_version row = ct_version ct_row \<and>
               i \<notin> row_id ` set (list_consents datetime None db)" by (rule exI)
qed

theorem snapshot_frozen_witness:
  "save_consent example_dumps ''b2'' ''2024-03-01T12:00:00.900000+00:00''
     (Some ''a@example.com'') (Some []) [(''newsletter'', True)] text_v1 db_a =
     Inr (''b2'', db_ab) \<and>
   list_all is_upsert text_update \<and>
   filter (\<lambda>s. fst s = ''b2'')
     (map snapshot (consents (run example_digest example_dumps text_update db_ab))) =
     [(''b2'', 1, ''v1.0'', ''sha256:Hello'')] \<and>
   filter (\<lambda>s. fst s = ''b2'')
     (map snapshot (consents (run example_digest example_dumps later_calls db_ab))) =
     [(''b2'', 1, ''v1.0'', ''sha256:Hello'')] \<and>
   (\<exists>row. mset (list_consents example_datetime None
                  (run example_digest example_dumps text_update db_ab)) =
            add_mset row (mset (list_consents example_datetime None db_a)) \<and>
          row_id row = ''b2'' \<and> row_version row = ''v1.0'' \<and>
          ''b2'' \<notin> row_id ` set (list_consents example_datetime None db_a))"
proof -
  have 1: "save_consent example_dumps ''b2'' ''2024-03-01T12:00:00.900000+00:00''
     (Some ''a@example.com'') (Some []) [(''newsletter'', True)] text_v1 db_a =
     Inr (''b2'', db_ab)"
    by (simp add: save_consent_def Let_def or_None_def example_dumps_def db_a_def db_ab_def
        consent_a_def consent_b_def text_v1_def)
  have 2: "list_all is_upsert text_update" by (simp add: text_update_def)
  have t: "ct_id text_v1 = 1" "ct_version text_v1 = ''v1.0''"
    "ct_body_hash text_v1 = ''sha256:Hello''" by (simp_all add: text_v1_def)
  note frozen = snapshot_frozen [OF 1, unfolded t]
  from frozen [of example_digest text_update example_datetime]
  have 3: "filter (\<lambda>s. fst s = ''b2'')
     (map snapshot (consents (run example_digest example_dumps text_update db_ab))) =
     [(''b2'', 1, ''v1.0'', ''sha256:Hello'')]" by (elim conjE)
  from frozen [of example_digest later_calls example_datetime]
  have 4: "filter (\<lambda>s. fst s = ''b2'')
     (map snapshot (consents (run example_digest example_dumps later_calls db_ab))) =
     [(''b2'', 1, ''v1.0'', ''sha256:Hello'')]" by (elim conjE)
  from frozen [of example_digest text_update example_datetime]
  have "list_all is_upsert text_update \<longrightarrow>
       (\<exists>row. mset (list_consents example_datetime None
                  (run example_digest example_dumps text_update db_ab)) =
            add_mset row (mset (list_consents example_datetime None db_a)) \<and>
          row_id row = ''b2'' \<and> row_version row = ''v1.0'' \<and>
          ''b2'' \<notin> row_id ` set (list_consents example_datetime None db_a))"
    by (elim conjE)
  from this 2 have 5: "\<exists>row. mset (list_consents example_datetime None
                  (run example_digest example_dumps text_update db_ab)) =
            add_mset row (mset (list_consents example_datetime None db_a)) \<and>
          row_id row = ''b2'' \<and> row_version row = ''v1.0'' \<and>
          ''b2'' \<notin> row_id ` set (list_consents example_datetime None db_a)"
    by (rule mp)
  show ?thesis by (rule conjI [OF 1 conjI [OF 2 conjI [OF 3 conjI [OF 4 5]]]])
qed

end
